theory Spec2Isabelle
  imports Complex_Main
begin

section \<open>The drone lift calculator (\<open>optimization_tools/lift_calculator.py\<close>)\<close>

text \<open>
  The calculation engine of the program is the class \<open>DroneCalculator\<close> (four
  methods) together with two methods of the window class, \<open>update_calculations\<close>
  (the evaluation of one configuration) and \<open>run_optimization\<close> (the grid search).
  Python floats are modelled as the real numbers: rounding, overflow, infinities and
  NaN are outside the model. Everything else follows the source line by line. What
  Python raises is a value of the model: a float division by zero is
  \<open>ZeroDivisionError\<close>, and so every function that divides returns a sum
  \<open>py_error + real\<close>.
\<close>

subsection \<open>Errors\<close>

text \<open>
  \<open>ComplexResult\<close> stands for the one place where Python leaves the floats without
  raising: \<open>x ** 1.5\<close> with a negative float \<open>x\<close> is a complex number. Every
  later use of such a value in the program compares it with a float, which raises
  \<open>TypeError\<close>.
\<close>

datatype py_error = ZeroDivisionError | ComplexResult

subsection \<open>\<open>class DroneCalculator\<close>\<close>

record drone_calculator =
  air_density :: real
  gravity :: real

definition DroneCalculator :: drone_calculator where
  "DroneCalculator = \<lparr>air_density = 1.225, gravity = 9.81\<rparr>"

definition calculate_propeller_thrust ::
  "drone_calculator \<Rightarrow> real \<Rightarrow> real \<Rightarrow> real \<Rightarrow> real \<Rightarrow> py_error + real" where
  "calculate_propeller_thrust self diameter pitch rpm efficiency =
     (let diameter_m = diameter * 0.0254;
          pitch_m = pitch * 0.0254
      in if rpm > 0 \<and> rpm * diameter_m / 60 = 0 then Inl ZeroDivisionError
         else
           let advance_ratio =
                 (if rpm > 0 then (rpm * pitch_m / 60) / (rpm * diameter_m / 60) else 0);
               disk_area = pi * (diameter_m / 2) ^ 2;
               tip_speed = (rpm / 60) * pi * diameter_m;
               thrust_coeff = max 0 (0.1 * (1 - advance_ratio) * efficiency);
               thrust_newtons = thrust_coeff * air_density self * disk_area * tip_speed ^ 2;
               thrust_grams = thrust_newtons * 101.97
           in Inr (max 0 thrust_grams))"

definition calculate_motor_rpm :: "drone_calculator \<Rightarrow> real \<Rightarrow> real \<Rightarrow> real \<Rightarrow> real" where
  "calculate_motor_rpm self voltage kv load_current =
     (let back_emf_loss = load_current * 0.1;
          effective_voltage = max 0 (voltage - back_emf_loss);
          rpm = kv * effective_voltage
      in rpm)"

definition calculate_power_consumption ::
  "drone_calculator \<Rightarrow> real \<Rightarrow> real \<Rightarrow> py_error + real" where
  "calculate_power_consumption self thrust_grams motor_efficiency =
     (let thrust_newtons = thrust_grams / 101.97
      in if motor_efficiency * 10 = 0 then Inl ZeroDivisionError
         else if thrust_newtons < 0 then Inl ComplexResult
         else Inr ((thrust_newtons powr 1.5) / (motor_efficiency * 10)))"

definition calculate_flight_time ::
  "drone_calculator \<Rightarrow> real \<Rightarrow> real \<Rightarrow> real \<Rightarrow> py_error + real" where
  "calculate_flight_time self battery_capacity_mah total_power_watts voltage =
     (if total_power_watts \<le> 0 then Inr 0
      else if voltage = 0 then Inl ZeroDivisionError
      else
        let current_amps = total_power_watts / voltage
        in if current_amps = 0 then Inl ZeroDivisionError
           else
             let flight_time_hours = (battery_capacity_mah / 1000) / current_amps
             in Inr (flight_time_hours * 60))"

subsection \<open>The inputs of the window\<close>

text \<open>
  The values of the input widgets that the two methods read: the float spin boxes
  (\<open>QDoubleSpinBox.value()\<close>), the integer spin box \<open>num_motors\<close>, the four
  check boxes of the optimisation tab and its constraints. The two efficiencies are
  percentages. The window's calculator is the one made by \<open>DroneCalculator()\<close> and
  is never replaced.
\<close>

record gui =
  prop_diameter :: real
  prop_pitch :: real
  prop_efficiency :: real
  motor_kv :: real
  motor_efficiency :: real
  motor_weight :: real
  num_motors :: int
  battery_voltage :: real
  battery_capacity :: real
  battery_weight :: real
  esc_weight :: real
  frame_weight :: real
  flight_controller_weight :: real
  camera_weight :: real
  additional_payload :: real
  wiring_weight :: real
  opt_prop_diameter :: bool
  opt_motor_kv :: bool
  opt_battery_capacity :: bool
  opt_num_motors :: bool
  max_weight :: real
  min_flight_time :: real

definition calculator :: drone_calculator where
  "calculator = DroneCalculator"

subsection \<open>\<open>update_calculations\<close>: the evaluation of one configuration\<close>

text \<open>
  The six values that \<open>update_calculations\<close> computes and writes to the result
  labels (lines 373 to 417). The method runs inside \<open>try ... except Exception\<close>:
  an error leaves the labels as they were, which is the \<open>Inl\<close> of the model. The
  text analysis and the plots it triggers afterwards are presentation and are not
  modelled.
\<close>

record performance_result =
  total_weight :: real
  total_thrust :: real
  twr :: real
  flight_time :: real
  total_power :: real
  max_payload :: real

definition update_calculations :: "gui \<Rightarrow> py_error + performance_result" where
  "update_calculations g =
     (let rpm = calculate_motor_rpm calculator (battery_voltage g) (motor_kv g) 0
      in case calculate_propeller_thrust calculator (prop_diameter g) (prop_pitch g) rpm
                (prop_efficiency g / 100) of
           Inl e \<Rightarrow> Inl e
         | Inr thrust_per_motor \<Rightarrow>
             let thrust = thrust_per_motor * real_of_int (num_motors g);
                 weight =
                   motor_weight g * real_of_int (num_motors g) +
                   battery_weight g +
                   esc_weight g * real_of_int (num_motors g) +
                   frame_weight g +
                   flight_controller_weight g +
                   camera_weight g +
                   additional_payload g +
                   wiring_weight g;
                 ratio = (if weight > 0 then thrust / weight else 0)
             in case calculate_power_consumption calculator thrust_per_motor
                       (motor_efficiency g / 100) of
                  Inl e \<Rightarrow> Inl e
                | Inr power_per_motor \<Rightarrow>
                    let power = power_per_motor * real_of_int (num_motors g)
                    in case calculate_flight_time calculator (battery_capacity g) power
                              (battery_voltage g) of
                         Inl e \<Rightarrow> Inl e
                       | Inr minutes \<Rightarrow>
                           Inr \<lparr>total_weight = weight,
                                total_thrust = thrust,
                                twr = ratio,
                                flight_time = minutes,
                                total_power = power,
                                max_payload =
                                  max 0 (thrust / 2 - (weight - additional_payload g))\<rparr>)"

subsection \<open>\<open>run_optimization\<close>: the grid search\<close>

text \<open>The list of the names of the selected parameters, built by four appends.\<close>

definition optimize_params :: "gui \<Rightarrow> string list" where
  "optimize_params g =
     (if opt_prop_diameter g then [''Propeller Diameter''] else []) @
     (if opt_motor_kv g then [''Motor KV''] else []) @
     (if opt_battery_capacity g then [''Battery Capacity''] else []) @
     (if opt_num_motors g then [''Number of Motors''] else [])"

definition prop_diameters :: "gui \<Rightarrow> real list" where
  "prop_diameters g =
     (if ''Propeller Diameter'' \<in> set (optimize_params g) then [8, 10, 12, 14]
      else [prop_diameter g])"

definition motor_kvs :: "gui \<Rightarrow> real list" where
  "motor_kvs g =
     (if ''Motor KV'' \<in> set (optimize_params g) then [800, 1000, 1200, 1500]
      else [motor_kv g])"

definition battery_caps :: "gui \<Rightarrow> real list" where
  "battery_caps g =
     (if ''Battery Capacity'' \<in> set (optimize_params g) then [3000, 5000, 8000, 10000]
      else [battery_capacity g])"

definition motor_counts :: "gui \<Rightarrow> int list" where
  "motor_counts g =
     (if ''Number of Motors'' \<in> set (optimize_params g) then [3, 4, 6, 8]
      else [num_motors g])"

text \<open>
  A candidate is one tuple \<open>(prop_d, motor_kv, battery_cap, motor_count)\<close> of the
  four nested \<open>for\<close> loops; \<open>candidates\<close> lists them in the order the loops visit
  them (the last axis varies fastest).
\<close>

type_synonym candidate = "real \<times> real \<times> real \<times> int"

definition candidates :: "gui \<Rightarrow> candidate list" where
  "candidates g =
     List.product (prop_diameters g)
       (List.product (motor_kvs g) (List.product (battery_caps g) (motor_counts g)))"

text \<open>
  The performance that the loop body computes for its candidate (lines 598 to 617).
  The propeller thrust and the power consumption are called without their
  efficiency argument, so with the defaults 0.8 and 0.85 of the two methods.
\<close>

record metrics =
  m_twr :: real
  m_flight_time :: real
  m_total_weight :: real
  m_power :: real

definition candidate_metrics :: "gui \<Rightarrow> candidate \<Rightarrow> py_error + metrics" where
  "candidate_metrics g c =
     (case c of (prop_d, kv, battery_cap, motor_count) \<Rightarrow>
        let rpm = calculate_motor_rpm calculator (battery_voltage g) kv 0
        in case calculate_propeller_thrust calculator prop_d (prop_pitch g) rpm 0.8 of
             Inl e \<Rightarrow> Inl e
           | Inr thrust_per_motor \<Rightarrow>
               let thrust = thrust_per_motor * real_of_int motor_count;
                   weight =
                     motor_weight g * real_of_int motor_count +
                     battery_weight g +
                     frame_weight g +
                     flight_controller_weight g +
                     camera_weight g +
                     additional_payload g +
                     wiring_weight g;
                   ratio = (if weight > 0 then thrust / weight else 0)
               in case calculate_power_consumption calculator thrust_per_motor 0.85 of
                    Inl e \<Rightarrow> Inl e
                  | Inr power_per_motor \<Rightarrow>
                      let power = power_per_motor * real_of_int motor_count
                      in case calculate_flight_time calculator battery_cap power
                                (battery_voltage g) of
                           Inl e \<Rightarrow> Inl e
                         | Inr minutes \<Rightarrow>
                             Inr \<lparr>m_twr = ratio, m_flight_time = minutes,
                                  m_total_weight = weight, m_power = power\<rparr>)"

definition score_of :: "metrics \<Rightarrow> real" where
  "score_of m =
     (m_twr m * 30) + (m_flight_time m * 2) - (m_total_weight m * 0.01) - (m_power m * 0.1)"

text \<open>The dictionary \<open>best_config\<close> with its nine keys.\<close>

record config =
  c_prop_diameter :: real
  c_motor_kv :: real
  c_battery_capacity :: real
  c_motor_count :: int
  c_twr :: real
  c_flight_time :: real
  c_total_weight :: real
  c_power :: real
  c_score :: real

definition make_config :: "candidate \<Rightarrow> metrics \<Rightarrow> real \<Rightarrow> config" where
  "make_config c m score =
     (case c of (prop_d, kv, battery_cap, motor_count) \<Rightarrow>
        \<lparr>c_prop_diameter = prop_d, c_motor_kv = kv, c_battery_capacity = battery_cap,
         c_motor_count = motor_count, c_twr = m_twr m, c_flight_time = m_flight_time m,
         c_total_weight = m_total_weight m, c_power = m_power m, c_score = score\<rparr>)"

text \<open>The two variables that the loops update.\<close>

record search =
  best_config :: "config option"
  best_score :: real

definition loop_body :: "gui \<Rightarrow> search \<Rightarrow> candidate \<Rightarrow> py_error + search" where
  "loop_body g s c =
     (case candidate_metrics g c of
        Inl e \<Rightarrow> Inl e
      | Inr m \<Rightarrow>
          if m_total_weight m > max_weight g then Inr s
          else if m_flight_time m < min_flight_time g then Inr s
          else
            let score = score_of m
            in if score > best_score s \<and> m_twr m \<ge> 1.0
               then Inr \<lparr>best_config = Some (make_config c m score), best_score = score\<rparr>
               else Inr s)"

text \<open>The loops have no exception handler: the first error ends the search.\<close>

fun run_candidates :: "gui \<Rightarrow> candidate list \<Rightarrow> search \<Rightarrow> py_error + search" where
  "run_candidates g [] s = Inr s"
| "run_candidates g (c # cs) s =
     (case loop_body g s c of Inl e \<Rightarrow> Inl e | Inr s' \<Rightarrow> run_candidates g cs s')"

text \<open>
  The three texts that \<open>run_optimization\<close> can show: no parameter was selected (the
  early return), a configuration was found, none was found.
\<close>

datatype outcome = No_parameters_selected | Found config | Infeasible

definition run_optimization :: "gui \<Rightarrow> py_error + outcome" where
  "run_optimization g =
     (if optimize_params g = [] then Inr No_parameters_selected
      else
        case run_candidates g (candidates g) \<lparr>best_config = None, best_score = 0\<rparr> of
          Inl e \<Rightarrow> Inl e
        | Inr s \<Rightarrow>
            (case best_config s of
               Some b \<Rightarrow> Inr (Found b)
             | None \<Rightarrow> Inr Infeasible))"

text \<open>The window as it opens: every input at its default, nothing selected.\<close>

definition default_gui :: gui where
  "default_gui =
     \<lparr>prop_diameter = 10.0, prop_pitch = 4.5, prop_efficiency = 80.0,
      motor_kv = 1000.0, motor_efficiency = 85.0, motor_weight = 50.0, num_motors = 4,
      battery_voltage = 11.1, battery_capacity = 5000.0, battery_weight = 300.0,
      esc_weight = 25.0, frame_weight = 200.0, flight_controller_weight = 30.0,
      camera_weight = 100.0, additional_payload = 0.0, wiring_weight = 50.0,
      opt_prop_diameter = False, opt_motor_kv = False, opt_battery_capacity = False,
      opt_num_motors = False, max_weight = 2000.0, min_flight_time = 10.0\<rparr>"

text \<open>
  Two degenerate inputs: the default window with no motors, and the default window
  with a battery of zero volts and a motor efficiency of zero percent.
\<close>

definition zero_motors_gui :: gui where
  "zero_motors_gui = default_gui\<lparr>num_motors := 0\<rparr>"

definition zero_voltage_zero_efficiency_gui :: gui where
  "zero_voltage_zero_efficiency_gui =
     default_gui\<lparr>battery_voltage := 0, motor_efficiency := 0\<rparr>"

text \<open>
  Four windows with parameters selected for optimisation: the default window with
  all four check boxes set, the default window with only the number of motors
  selected, the same with a maximal weight of 900 grams, and a heavy vehicle (every
  input inside the range of its widget) with only the number of motors selected.
\<close>

definition all_axes_gui :: gui where
  "all_axes_gui =
     default_gui\<lparr>opt_prop_diameter := True, opt_motor_kv := True,
       opt_battery_capacity := True, opt_num_motors := True\<rparr>"

definition motors_axis_gui :: gui where
  "motors_axis_gui = default_gui\<lparr>opt_num_motors := True\<rparr>"

definition tight_gui :: gui where
  "tight_gui = default_gui\<lparr>opt_num_motors := True, max_weight := 900.0\<rparr>"

definition heavy_gui :: gui where
  "heavy_gui =
     \<lparr>prop_diameter = 10.0, prop_pitch = 5.0, prop_efficiency = 80.0,
      motor_kv = 1500.0, motor_efficiency = 85.0, motor_weight = 10.0, num_motors = 4,
      battery_voltage = 4.0, battery_capacity = 500.0, battery_weight = 2000.0,
      esc_weight = 25.0, frame_weight = 1000.0, flight_controller_weight = 200.0,
      camera_weight = 1000.0, additional_payload = 4520.0, wiring_weight = 200.0,
      opt_prop_diameter = False, opt_motor_kv = False, opt_battery_capacity = False,
      opt_num_motors = True, max_weight = 10000.0, min_flight_time = 1.0\<rparr>"

subsection \<open>Vocabulary of the properties\<close>

text \<open>
  The template with the tuple of a candidate substituted: the configuration that the
  claims compare the loop body with.
\<close>

definition with_candidate :: "gui \<Rightarrow> candidate \<Rightarrow> gui" where
  "with_candidate g c =
     (case c of (prop_d, kv, battery_cap, motor_count) \<Rightarrow>
        g\<lparr>prop_diameter := prop_d, motor_kv := kv, battery_capacity := battery_cap,
          num_motors := motor_count\<rparr>)"

text \<open>
  What the specification says about a template, in its own words and over
  \<open>update_calculations\<close>: the template satisfies the two constraints, and the score
  computed from its evaluation. \<open>outcome_score\<close> is the score that an outcome of
  \<open>run_optimization\<close> carries, if it carries one.
\<close>

definition spec_template_feasible :: "gui \<Rightarrow> bool" where
  "spec_template_feasible g =
     (case update_calculations g of
        Inl e \<Rightarrow> False
      | Inr r \<Rightarrow> total_weight r \<le> max_weight g \<and> min_flight_time g \<le> flight_time r)"

definition spec_template_score :: "gui \<Rightarrow> real option" where
  "spec_template_score g =
     (case update_calculations g of
        Inl e \<Rightarrow> None
      | Inr r \<Rightarrow>
          Some (twr r * 30 + flight_time r * 2 - total_weight r * 0.01 - total_power r * 0.1))"

definition outcome_score :: "py_error + outcome \<Rightarrow> real option" where
  "outcome_score x =
     (case x of
        Inr (Found b) \<Rightarrow> Some (c_score b)
      | _ \<Rightarrow> None)"

text \<open>
  A candidate's metrics are acceptable when they pass the two constraint checks of the
  loop body and its test on the thrust-to-weight ratio. \<open>search_inv\<close> is the
  invariant of the loops after the candidates \<open>pre\<close>: the best score bounds the
  score of every acceptable candidate seen, it is zero while nothing was taken, and
  the configuration taken is the first acceptable candidate with that score.
\<close>

definition acceptable :: "gui \<Rightarrow> metrics \<Rightarrow> bool" where
  "acceptable g m \<longleftrightarrow>
     m_total_weight m \<le> max_weight g \<and> min_flight_time g \<le> m_flight_time m \<and> 1 \<le> m_twr m"

definition search_inv :: "gui \<Rightarrow> candidate list \<Rightarrow> search \<Rightarrow> bool" where
  "search_inv g pre s \<longleftrightarrow>
     (\<forall>j < length pre. \<forall>m. candidate_metrics g (pre ! j) = Inr m \<and> acceptable g m \<longrightarrow>
         score_of m \<le> best_score s) \<and>
     (best_config s = None \<longrightarrow> best_score s = 0) \<and>
     (\<forall>b. best_config s = Some b \<longrightarrow>
        (\<exists>i < length pre. \<exists>m. candidate_metrics g (pre ! i) = Inr m \<and>
            b = make_config (pre ! i) m (score_of m) \<and> acceptable g m \<and>
            score_of m = best_score s \<and>
            (\<forall>j < i. \<forall>m'. candidate_metrics g (pre ! j) = Inr m' \<and> acceptable g m' \<longrightarrow>
                score_of m' < best_score s)))"

section \<open>Properties\<close>

subsection \<open>When the four methods return\<close>

lemma thrust_result:
  "\<not> (0 < rpm \<and> diameter = 0) \<Longrightarrow>
     \<exists>t. calculate_propeller_thrust self diameter pitch rpm eff = Inr t \<and> 0 \<le> t
         \<and> (rpm = 0 \<longrightarrow> t = 0)"
  by (auto simp add: calculate_propeller_thrust_def Let_def)

lemma thrust_zero_rpm:
  "calculate_propeller_thrust self diameter pitch 0 eff = Inr 0"
  by (simp add: calculate_propeller_thrust_def Let_def)

lemma thrust_nonzero_rpm:
  "calculate_propeller_thrust self diameter pitch rpm eff = Inr t \<Longrightarrow> t \<noteq> 0 \<Longrightarrow> rpm \<noteq> 0"
  using thrust_zero_rpm [of self diameter pitch eff] by auto

lemma rpm_nonzero_voltage:
  "calculate_motor_rpm self v kv 0 \<noteq> 0 \<Longrightarrow> v \<noteq> 0"
  by (auto simp add: calculate_motor_rpm_def)

lemma power_result:
  "0 \<le> t \<Longrightarrow> eff \<noteq> 0 \<Longrightarrow>
     calculate_power_consumption self t eff = Inr ((t / 101.97) powr 1.5 / (eff * 10))"
  by (simp add: calculate_power_consumption_def)

lemma power_error:
  "calculate_power_consumption self t 0 = Inl ZeroDivisionError"
  by (simp add: calculate_power_consumption_def)

lemma flight_time_result:
  "p \<le> 0 \<or> v \<noteq> 0 \<Longrightarrow>
     calculate_flight_time self cap p v =
       Inr (if p \<le> 0 then 0 else ((cap / 1000) / (p / v)) * 60)"
  by (auto simp add: calculate_flight_time_def)

text \<open>
  \<open>update_calculations\<close> can fail in two places only: the advance ratio (a zero
  diameter at a positive rpm) and the power (a zero motor efficiency). The flight
  time never fails there, since a positive power needs a positive voltage.
\<close>

lemma update_calculations_result:
  assumes eff: "motor_efficiency g \<noteq> 0"
    and dia: "\<not> (0 < calculate_motor_rpm calculator (battery_voltage g) (motor_kv g) 0
               \<and> prop_diameter g = 0)"
  shows "\<exists>r. update_calculations g = Inr r"
proof -
  let ?rpm = "calculate_motor_rpm calculator (battery_voltage g) (motor_kv g) 0"
  obtain t where t: "calculate_propeller_thrust calculator (prop_diameter g) (prop_pitch g) ?rpm
      (prop_efficiency g / 100) = Inr t" and t0: "0 \<le> t"
    using thrust_result [OF dia] by blast
  let ?p = "(t / 101.97) powr 1.5 / (motor_efficiency g / 100 * 10)"
  have p: "calculate_power_consumption calculator t (motor_efficiency g / 100) = Inr ?p"
    using t0 eff by (simp add: power_result)
  have "?p * real_of_int (num_motors g) \<le> 0 \<or> battery_voltage g \<noteq> 0"
  proof (cases "t = 0")
    case True
    then show ?thesis by simp
  next
    case False
    then have "?rpm \<noteq> 0" using t by (rule thrust_nonzero_rpm [rotated])
    then show ?thesis using rpm_nonzero_voltage by blast
  qed
  then obtain m where "calculate_flight_time calculator (battery_capacity g)
      (?p * real_of_int (num_motors g)) (battery_voltage g) = Inr m"
    using flight_time_result by blast
  then show ?thesis using t p by (simp add: update_calculations_def Let_def)
qed

lemma default_gui_result: "\<exists>r. update_calculations default_gui = Inr r"
  by (rule update_calculations_result) (simp_all add: default_gui_def)

subsection \<open>The physics model\<close>

text \<open>
  Claim C7, as amended. The propeller thrust is a value and is not negative for
  every positive diameter, every pitch and rpm that are not negative, and every
  efficiency. With a diameter of zero and a positive rpm the advance ratio divides by
  zero and the method raises. At an rpm of zero the thrust is exactly zero, whatever
  the diameter, the pitch and the efficiency are.
\<close>

theorem propeller_thrust_nonneg:
  "(0 < diameter \<and> 0 \<le> pitch \<and> 0 \<le> rpm \<longrightarrow>
      (\<exists>t. calculate_propeller_thrust self diameter pitch rpm efficiency = Inr t \<and> 0 \<le> t))
   \<and> (0 < rpm \<longrightarrow>
      calculate_propeller_thrust self 0 pitch rpm efficiency = Inl ZeroDivisionError)
   \<and> calculate_propeller_thrust self diameter pitch 0 efficiency = Inr 0"
  by (simp add: calculate_propeller_thrust_def Let_def)

theorem propeller_thrust_nonneg_witness:
  "((0::real) < 10 \<and> (0::real) \<le> 4.5 \<and> (0::real) \<le> 11100 \<and>
      (\<exists>t. calculate_propeller_thrust DroneCalculator 10 4.5 11100 0.8 = Inr t \<and> 0 \<le> t))
   \<and> ((0::real) < 11100 \<and>
      calculate_propeller_thrust DroneCalculator 0 4.5 11100 0.8 = Inl ZeroDivisionError)"
  using propeller_thrust_nonneg [of 10 "4.5" 11100 DroneCalculator "0.8"]
    propeller_thrust_nonneg [of 0 "4.5" 11100 DroneCalculator "0.8"]
  by simp

text \<open>
  Claim C7 as it is written covers a diameter of zero: there, at the rpm of the
  default window, the method returns no thrust at all.
\<close>

theorem propeller_thrust_zero_diameter:
  "(0::real) \<le> 0 \<and> (0::real) \<le> 4.5 \<and> (0::real) \<le> 11100 \<and>
   calculate_propeller_thrust DroneCalculator 0 4.5 11100 0.8 = Inl ZeroDivisionError"
  by (simp add: calculate_propeller_thrust_def)

text \<open>
  Claim C8. The motor rpm is the kv rating times the effective voltage, which is the
  voltage less a tenth of the load current, and at least zero. Without load and at a
  voltage that is not negative the rpm is the kv rating times the voltage.
\<close>

theorem motor_rpm_formula:
  "calculate_motor_rpm self voltage kv load_current = kv * max 0 (voltage - load_current * 0.1)
   \<and> (0 \<le> voltage \<longrightarrow> calculate_motor_rpm self voltage kv 0 = kv * voltage)"
  by (simp add: calculate_motor_rpm_def)

theorem motor_rpm_formula_witness:
  "(0::real) \<le> 11.1 \<and> calculate_motor_rpm DroneCalculator 11.1 1000 0 = 11100"
  using motor_rpm_formula [of DroneCalculator "11.1" 1000 0] by simp

text \<open>
  Claim C9. For a thrust that is not negative and a positive motor efficiency the
  power is the thrust in newtons (the grams divided by 101.97) to the power 1.5,
  divided by ten times the efficiency.
\<close>

theorem power_consumption_formula:
  "0 \<le> thrust_grams \<Longrightarrow> 0 < eff \<Longrightarrow>
     calculate_power_consumption self thrust_grams eff =
       Inr ((thrust_grams / 101.97) powr 1.5 / (eff * 10))"
  by (simp add: calculate_power_consumption_def)

theorem power_consumption_formula_witness:
  "(0::real) \<le> 101.97 \<and> (0::real) < 0.85 \<and>
   calculate_power_consumption DroneCalculator 101.97 0.85 = Inr (1 / 8.5)"
  using power_consumption_formula [of "101.97" "0.85" DroneCalculator] by simp

text \<open>
  Claim C6. The flight time is zero whenever the power is zero or negative, for every
  capacity and every voltage, and no division is reached. For a positive power and a
  positive voltage it is the capacity in ampere hours divided by the current (the
  power divided by the voltage), times sixty.
\<close>

theorem flight_time_guard:
  "(total_power_watts \<le> 0 \<longrightarrow>
      calculate_flight_time self battery_capacity_mah total_power_watts voltage = Inr 0)
   \<and> (0 < total_power_watts \<and> 0 < voltage \<longrightarrow>
      calculate_flight_time self battery_capacity_mah total_power_watts voltage =
        Inr (((battery_capacity_mah / 1000) / (total_power_watts / voltage)) * 60))"
  by (simp add: calculate_flight_time_def)

theorem flight_time_guard_witness:
  "((0::real) \<le> 0 \<and> calculate_flight_time DroneCalculator 5000 0 0 = Inr 0)
   \<and> ((0::real) < 222 \<and> (0::real) < 11.1 \<and>
        calculate_flight_time DroneCalculator 5000 222 11.1 = Inr 15)"
  using flight_time_guard [of 0 DroneCalculator 5000 0]
    flight_time_guard [of 222 DroneCalculator 5000 "11.1"]
  by simp

subsection \<open>The evaluation of one configuration\<close>

text \<open>
  Claim C5, as amended. Whenever \<open>update_calculations\<close> has a result, its total
  weight is the sum of the five fixed weights (frame, flight controller, camera,
  additional payload, wiring), the motor weight times the number of motors, the
  weight of one speed controller times the number of motors, and the battery weight.
  For the regression scenario, which is the default window, that is 980 grams.
\<close>

theorem total_weight_formula:
  "(update_calculations g = Inr r \<longrightarrow>
      total_weight r =
        (frame_weight g + flight_controller_weight g + camera_weight g +
         additional_payload g + wiring_weight g) +
        motor_weight g * real_of_int (num_motors g) +
        esc_weight g * real_of_int (num_motors g) +
        battery_weight g)
   \<and> (\<exists>r. update_calculations default_gui = Inr r \<and> total_weight r = 980)"
proof (intro conjI impI)
  assume "update_calculations g = Inr r"
  then show "total_weight r =
        (frame_weight g + flight_controller_weight g + camera_weight g +
         additional_payload g + wiring_weight g) +
        motor_weight g * real_of_int (num_motors g) +
        esc_weight g * real_of_int (num_motors g) +
        battery_weight g"
    by (auto simp add: update_calculations_def Let_def split: sum.splits)
next
  obtain r where r: "update_calculations default_gui = Inr r"
    using default_gui_result by blast
  then have "total_weight r = 980"
    by (auto simp add: update_calculations_def Let_def default_gui_def split: sum.splits)
  with r show "\<exists>r. update_calculations default_gui = Inr r \<and> total_weight r = 980"
    by blast
qed

theorem total_weight_formula_witness:
  "\<exists>r. update_calculations default_gui = Inr r \<and>
       total_weight r = (200 + 30 + 100 + 0 + 50) + 50 * 4 + 25 * 4 + 300"
proof -
  obtain r where r: "update_calculations default_gui = Inr r"
    using default_gui_result by blast
  have "total_weight r = (200 + 30 + 100 + 0 + 50) + 50 * 4 + 25 * 4 + 300"
    using total_weight_formula [of default_gui r] r by (simp add: default_gui_def)
  with r show ?thesis by blast
qed

text \<open>
  Claim C5 as it is written gives 880 grams for the regression scenario. The weights
  of the scenario add up to 980 grams, and that is what the code computes.
\<close>

theorem regression_weight_is_980:
  "map_sum id total_weight (update_calculations default_gui) = Inr 980
   \<and> (980::real) \<noteq> 880"
proof -
  obtain r where r: "update_calculations default_gui = Inr r"
    using default_gui_result by blast
  then have "total_weight r = 980"
    by (auto simp add: update_calculations_def Let_def default_gui_def split: sum.splits)
  with r show ?thesis by simp
qed

text \<open>
  Claim C10, as amended. In every result of \<open>update_calculations\<close> the
  thrust-to-weight ratio is the total thrust divided by the total weight when the
  weight is positive and zero otherwise, so that this division cannot fail. A
  configuration with no motors or with zero volts has a result, with a total thrust,
  a ratio, a total power and a flight time of zero, provided that its motor
  efficiency is not zero and that its propeller diameter is not zero when its rpm is
  positive.
\<close>

theorem twr_guard:
  "(update_calculations g = Inr r \<longrightarrow>
      twr r = (if total_weight r > 0 then total_thrust r / total_weight r else 0))
   \<and> ((num_motors g = 0 \<or> battery_voltage g = 0) \<and> motor_efficiency g \<noteq> 0 \<and>
       \<not> (0 < motor_kv g * max 0 (battery_voltage g) \<and> prop_diameter g = 0) \<longrightarrow>
      (\<exists>r. update_calculations g = Inr r \<and> total_thrust r = 0 \<and> twr r = 0 \<and>
           total_power r = 0 \<and> flight_time r = 0))"
proof (intro conjI impI)
  assume "update_calculations g = Inr r"
  then show "twr r = (if total_weight r > 0 then total_thrust r / total_weight r else 0)"
    by (auto simp add: update_calculations_def Let_def split: sum.splits)
next
  assume a: "(num_motors g = 0 \<or> battery_voltage g = 0) \<and> motor_efficiency g \<noteq> 0 \<and>
       \<not> (0 < motor_kv g * max 0 (battery_voltage g) \<and> prop_diameter g = 0)"
  let ?rpm = "calculate_motor_rpm calculator (battery_voltage g) (motor_kv g) 0"
  have rpm: "?rpm = motor_kv g * max 0 (battery_voltage g)"
    by (simp add: calculate_motor_rpm_def)
  obtain r where r: "update_calculations g = Inr r"
    using update_calculations_result [of g] a rpm by auto
  from a have "num_motors g = 0 \<or> battery_voltage g = 0" by simp
  then have "total_thrust r = 0 \<and> twr r = 0 \<and> total_power r = 0 \<and> flight_time r = 0"
  proof
    assume "num_motors g = 0"
    with r show ?thesis
      by (auto simp add: update_calculations_def Let_def calculate_flight_time_def
          split: sum.splits)
  next
    assume v: "battery_voltage g = 0"
    then have "?rpm = 0" by (simp add: calculate_motor_rpm_def)
    with r v a show ?thesis
      by (auto simp add: update_calculations_def Let_def thrust_zero_rpm power_result
          calculate_flight_time_def split: sum.splits)
  qed
  with r show "\<exists>r. update_calculations g = Inr r \<and> total_thrust r = 0 \<and> twr r = 0 \<and>
           total_power r = 0 \<and> flight_time r = 0"
    by blast
qed

theorem twr_guard_witness:
  "(num_motors zero_motors_gui = 0 \<or> battery_voltage zero_motors_gui = 0) \<and>
   motor_efficiency zero_motors_gui \<noteq> 0 \<and>
   \<not> (0 < motor_kv zero_motors_gui * max 0 (battery_voltage zero_motors_gui) \<and>
      prop_diameter zero_motors_gui = 0) \<and>
   (\<exists>r. update_calculations zero_motors_gui = Inr r \<and>
        twr r = (if total_weight r > 0 then total_thrust r / total_weight r else 0) \<and>
        total_thrust r = 0 \<and> twr r = 0 \<and> total_power r = 0 \<and> flight_time r = 0)"
proof -
  have h: "(num_motors zero_motors_gui = 0 \<or> battery_voltage zero_motors_gui = 0) \<and>
      motor_efficiency zero_motors_gui \<noteq> 0 \<and>
      \<not> (0 < motor_kv zero_motors_gui * max 0 (battery_voltage zero_motors_gui) \<and>
         prop_diameter zero_motors_gui = 0)"
    by (simp add: zero_motors_gui_def default_gui_def)
  then obtain r where r: "update_calculations zero_motors_gui = Inr r"
    "total_thrust r = 0" "twr r = 0" "total_power r = 0" "flight_time r = 0"
    using twr_guard [of zero_motors_gui] by blast
  have "twr r = (if total_weight r > 0 then total_thrust r / total_weight r else 0)"
    using twr_guard [of zero_motors_gui r] r(1) by blast
  with h r show ?thesis by blast
qed

text \<open>
  Claim C10 as it is written holds for every configuration with zero volts. With a
  motor efficiency of zero as well, the power divides by zero and there is no
  result.
\<close>

theorem zero_voltage_zero_efficiency_fails:
  "battery_voltage zero_voltage_zero_efficiency_gui = 0 \<and>
   update_calculations zero_voltage_zero_efficiency_gui = Inl ZeroDivisionError"
  by (simp add: zero_voltage_zero_efficiency_gui_def default_gui_def
      update_calculations_def Let_def calculate_motor_rpm_def thrust_zero_rpm power_error)

subsection \<open>Bounds on \<open>pi\<close> and on the power 1.5\<close>

text \<open>
  The thrust is a rational multiple of the cube of \<open>pi\<close>, and the power takes it to
  the power 1.5. The concrete configurations below need no more than
  \<open>3 \<le> pi < 3.2\<close> and the value of the power at a square.
\<close>

lemma pi_lo: "3 \<le> pi"
proof -
  have "sin (pi/6) \<le> pi/6" by (rule sin_x_le_x) simp
  then show ?thesis by (simp add: sin_30)
qed

lemma sin_lower:
  fixes x :: real assumes "0 \<le> x"
  shows "x - x^3/6 - x^5/120 \<le> sin x"
proof -
  have bound: "\<bar>sin x - (\<Sum>m<5. sin_coeff m * x ^ m)\<bar> \<le> inverse (fact 5) * \<bar>x\<bar> ^ 5"
    by (rule Maclaurin_sin_bound)
  have split: "(\<Sum>m<5. f m) = f 0 + f 1 + f 2 + f 3 + f (4::nat)" for f :: "nat \<Rightarrow> real"
    by (simp add: eval_nat_numeral)
  have coeffs: "sin_coeff 0 = 0" "sin_coeff 1 = 1" "sin_coeff 2 = 0" "sin_coeff 3 = -1/6" "sin_coeff 4 = 0"
    by (simp_all add: sin_coeff_def fact_numeral)
  have poly: "(\<Sum>m<5. sin_coeff m * x ^ m) = x - x^3/6"
    unfolding split coeffs by simp
  have rest: "inverse (fact 5) * \<bar>x\<bar> ^ 5 = x^5/120"
    using assms by (simp add: fact_numeral)
  have "\<bar>sin x - (x - x^3/6)\<bar> \<le> x^5/120"
    using bound unfolding poly rest .
  then show ?thesis by linarith
qed

lemma pi_hi: "pi < 3.2"
proof -
  define x where "x = pi/6"
  have x0: "0 \<le> x" and x1: "x \<le> 2/3" using pi_less_4 by (simp_all add: x_def)
  have s: "x - x^3/6 - x^5/120 \<le> 1/2"
    using sin_lower[OF x0] by (simp add: x_def sin_30)
  have sq1: "x^2 \<le> 4/9" using x0 x1 power_mono[of x "2/3" 2] by (simp add: power2_eq_square)
  have c3: "x^3 = x * x^2" and c5: "x^5 = x * (x^2 * x^2)" by (simp_all add: eval_nat_numeral)
  have a3: "x * x^2 \<le> x * (4/9)" using sq1 x0 by (rule mult_left_mono)
  have "x^2 * x^2 \<le> (4/9) * (4/9)" using sq1 by (intro mult_mono) auto
  then have a5: "x * (x^2 * x^2) \<le> x * ((4/9)*(4/9))" using x0 by (rule mult_left_mono)
  have x2: "x \<le> 0.541" using s a3 a5 unfolding c3 c5 by simp
  have sq2: "x^2 \<le> 0.2927" using x0 x2 power_mono[of x "0.541" 2] by (simp add: power2_eq_square)
  have b3: "x * x^2 \<le> x * 0.2927" using sq2 x0 by (rule mult_left_mono)
  have "x^2 * x^2 \<le> 0.2927 * 0.2927" using sq2 by (intro mult_mono) auto
  then have b5: "x * (x^2 * x^2) \<le> x * (0.2927 * 0.2927)" using x0 by (rule mult_left_mono)
  have "x < 0.53" using s b3 b5 unfolding c3 c5 by simp
  then show ?thesis by (simp add: x_def)
qed

lemma pi_cube_bounds: "27 \<le> pi ^ 3" "pi ^ 3 \<le> 32.768"
proof -
  have "(3::real) ^ 3 \<le> pi ^ 3" using pi_lo by (intro power_mono) auto
  then show "27 \<le> pi ^ 3" by simp
  have "pi ^ 3 \<le> (3.2::real) ^ 3" using pi_hi by (intro power_mono) auto
  then show "pi ^ 3 \<le> 32.768" by (simp add: power3_eq_cube)
qed

lemma sq_powr: fixes s :: real assumes "0 \<le> s" shows "(s^2) powr (3/2) = s^3"
proof -
  have "(s^2) powr (3/2) = (s^2) powr ((1/2) * 3)" by simp
  also have "\<dots> = ((s^2) powr (1/2)) powr 3" by (simp only: powr_powr)
  also have "\<dots> = s powr 3" using assms by (simp add: square_powr_half)
  also have "\<dots> = s^3" using assms by (simp add: powr_numeral)
  finally show ?thesis .
qed

lemma power_bounds:
  fixes lo hi t :: real
  assumes "0 \<le> lo" "lo ^ 2 \<le> t / 101.97" "t / 101.97 \<le> hi ^ 2" "0 \<le> hi"
  shows "lo ^ 3 / 8.5 \<le> (t / 101.97) powr 1.5 / (0.85 * 10)"
    and "(t / 101.97) powr 1.5 / (0.85 * 10) \<le> hi ^ 3 / 8.5"
proof -
  have "(lo ^ 2) powr (3/2) \<le> (t / 101.97) powr (3/2)"
    using assms by (intro powr_mono2) auto
  then have "lo ^ 3 \<le> (t / 101.97) powr 1.5" using assms by (simp add: sq_powr)
  then show "lo ^ 3 / 8.5 \<le> (t / 101.97) powr 1.5 / (0.85 * 10)" by simp
  have "0 \<le> t / 101.97" using assms(1,2) by (meson order_trans zero_le_power2)
  then have "(t / 101.97) powr (3/2) \<le> (hi ^ 2) powr (3/2)"
    using assms by (intro powr_mono2) auto
  then have "(t / 101.97) powr 1.5 \<le> hi ^ 3" using assms by (simp add: sq_powr)
  then show "(t / 101.97) powr 1.5 / (0.85 * 10) \<le> hi ^ 3 / 8.5" by simp
qed

lemma thrust_closed_form:
  assumes "0 < rpm" "diameter \<noteq> 0"
  shows "calculate_propeller_thrust calculator diameter pitch rpm eff =
     Inr (max 0 (max 0 (0.1 * (1 - pitch / diameter) * eff) * 1.225 *
        (pi * (diameter * 0.0254 / 2) ^ 2) * ((rpm / 60) * pi * (diameter * 0.0254)) ^ 2 * 101.97))"
  using assms
  by (simp add: calculate_propeller_thrust_def Let_def calculator_def DroneCalculator_def)

lemma default_thrust:
  "\<exists>t. calculate_propeller_thrust calculator 10 4.5 11100 0.8 = Inr t \<and> 5284 \<le> t \<and> t \<le> 6420"
proof -
  have "calculate_propeller_thrust calculator 10 4.5 11100 0.8 =
      Inr (5496183 / 1000000 * (127 / 1000)\<^sup>2 * (4699 / 100)\<^sup>2 * pi ^ 3)"
    by (simp add: thrust_closed_form power_mult_distrib power3_eq_cube power2_eq_square)
  moreover have "5284 \<le> 5496183 / 1000000 * (127 / 1000)\<^sup>2 * (4699 / 100)\<^sup>2 * pi ^ 3"
    using pi_cube_bounds(1) by (simp add: power2_eq_square)
  moreover have "5496183 / 1000000 * (127 / 1000)\<^sup>2 * (4699 / 100)\<^sup>2 * pi ^ 3 \<le> 6420"
    using pi_cube_bounds(2) by (simp add: power2_eq_square)
  ultimately show ?thesis by blast
qed

lemma heavy_thrust:
  "\<exists>t. calculate_propeller_thrust calculator 10 5 6000 0.8 = Inr t \<and> 1403 \<le> t \<and> t \<le> 1704"
proof -
  have "calculate_propeller_thrust calculator 10 5 6000 0.8 =
      Inr (499653 / 100000 * (127 / 1000)\<^sup>2 * (127 / 5)\<^sup>2 * pi ^ 3)"
    by (simp add: thrust_closed_form power_mult_distrib power3_eq_cube power2_eq_square)
  moreover have "1403 \<le> 499653 / 100000 * (127 / 1000)\<^sup>2 * (127 / 5)\<^sup>2 * pi ^ 3"
    using pi_cube_bounds(1) by (simp add: power2_eq_square)
  moreover have "499653 / 100000 * (127 / 1000)\<^sup>2 * (127 / 5)\<^sup>2 * pi ^ 3 \<le> 1704"
    using pi_cube_bounds(2) by (simp add: power2_eq_square)
  ultimately show ?thesis by blast
qed

subsection \<open>The loop body\<close>

lemma candidate_metrics_total:
  assumes "\<not> (0 < calculate_motor_rpm calculator (battery_voltage g) kv 0 \<and> prop_d = 0)"
  shows "\<exists>m. candidate_metrics g (prop_d, kv, cap, n) = Inr m"
proof -
  let ?rpm = "calculate_motor_rpm calculator (battery_voltage g) kv 0"
  obtain t where t: "calculate_propeller_thrust calculator prop_d (prop_pitch g) ?rpm 0.8 = Inr t"
      and t0: "0 \<le> t"
    using thrust_result [OF assms] by blast
  let ?p = "(t / 101.97) powr 1.5 / (0.85 * 10)"
  have p: "calculate_power_consumption calculator t 0.85 = Inr ?p"
    using t0 by (simp add: power_result)
  have "?p * real_of_int n \<le> 0 \<or> battery_voltage g \<noteq> 0"
  proof (cases "t = 0")
    case True
    then show ?thesis by simp
  next
    case False
    then have "?rpm \<noteq> 0" using t by (rule thrust_nonzero_rpm [rotated])
    then show ?thesis using rpm_nonzero_voltage by blast
  qed
  then obtain m where "calculate_flight_time calculator cap (?p * real_of_int n)
      (battery_voltage g) = Inr m"
    using flight_time_result by blast
  then show ?thesis using t p by (simp add: candidate_metrics_def Let_def)
qed

lemma candidate_metrics_closed:
  assumes t: "calculate_propeller_thrust calculator prop_d (prop_pitch g)
      (calculate_motor_rpm calculator (battery_voltage g) kv 0) 0.8 = Inr t"
    and t0: "0 \<le> t" and v: "battery_voltage g \<noteq> 0"
  shows "candidate_metrics g (prop_d, kv, cap, n) =
     Inr \<lparr>m_twr =
            (if motor_weight g * real_of_int n + battery_weight g + frame_weight g +
                flight_controller_weight g + camera_weight g + additional_payload g +
                wiring_weight g > 0
             then t * real_of_int n /
               (motor_weight g * real_of_int n + battery_weight g + frame_weight g +
                flight_controller_weight g + camera_weight g + additional_payload g +
                wiring_weight g)
             else 0),
          m_flight_time =
            (if (t / 101.97) powr 1.5 / (0.85 * 10) * real_of_int n \<le> 0 then 0
             else ((cap / 1000) /
               ((t / 101.97) powr 1.5 / (0.85 * 10) * real_of_int n / battery_voltage g)) * 60),
          m_total_weight =
            motor_weight g * real_of_int n + battery_weight g + frame_weight g +
            flight_controller_weight g + camera_weight g + additional_payload g +
            wiring_weight g,
          m_power = (t / 101.97) powr 1.5 / (0.85 * 10) * real_of_int n\<rparr>"
proof -
  have p: "calculate_power_consumption calculator t 0.85 = Inr ((t / 101.97) powr 1.5 / (0.85 * 10))"
    using t0 by (simp add: power_result)
  show ?thesis
    unfolding candidate_metrics_def
    by (simp only: prod.case Let_def t p sum.case flight_time_result [OF disjI2 [OF v]])
qed

lemma update_calculations_closed:
  assumes t: "calculate_propeller_thrust calculator (prop_diameter g) (prop_pitch g)
      (calculate_motor_rpm calculator (battery_voltage g) (motor_kv g) 0)
      (prop_efficiency g / 100) = Inr t"
    and t0: "0 \<le> t" and eff: "motor_efficiency g \<noteq> 0" and v: "battery_voltage g \<noteq> 0"
  shows "\<exists>r. update_calculations g = Inr r \<and>
     total_weight r =
       motor_weight g * real_of_int (num_motors g) + battery_weight g +
       esc_weight g * real_of_int (num_motors g) + frame_weight g +
       flight_controller_weight g + camera_weight g + additional_payload g + wiring_weight g \<and>
     total_power r =
       (t / 101.97) powr 1.5 / (motor_efficiency g / 100 * 10) * real_of_int (num_motors g) \<and>
     flight_time r =
       (if total_power r \<le> 0 then 0
        else ((battery_capacity g / 1000) / (total_power r / battery_voltage g)) * 60)"
proof -
  have p: "calculate_power_consumption calculator t (motor_efficiency g / 100) =
      Inr ((t / 101.97) powr 1.5 / (motor_efficiency g / 100 * 10))"
    using t0 eff by (simp add: power_result)
  show ?thesis
    unfolding update_calculations_def
    by (simp only: Let_def t p sum.case flight_time_result [OF disjI2 [OF v]]) simp
qed

lemma selected:
  "''Propeller Diameter'' \<in> set (optimize_params g) \<longleftrightarrow> opt_prop_diameter g"
  "''Motor KV'' \<in> set (optimize_params g) \<longleftrightarrow> opt_motor_kv g"
  "''Battery Capacity'' \<in> set (optimize_params g) \<longleftrightarrow> opt_battery_capacity g"
  "''Number of Motors'' \<in> set (optimize_params g) \<longleftrightarrow> opt_num_motors g"
  by (simp_all add: optimize_params_def)

lemma nothing_selected:
  "optimize_params g = [] \<longleftrightarrow>
     \<not> opt_prop_diameter g \<and> \<not> opt_motor_kv g \<and> \<not> opt_battery_capacity g \<and> \<not> opt_num_motors g"
  by (simp add: optimize_params_def)

lemma candidates_total:
  assumes "0 \<notin> set (prop_diameters g)"
  shows "\<forall>c \<in> set (candidates g). \<exists>m. candidate_metrics g c = Inr m"
proof
  fix c assume c: "c \<in> set (candidates g)"
  obtain d kv cap n where [simp]: "c = (d, kv, cap, n)" by (cases c) auto
  have "d \<in> set (prop_diameters g)" using c by (simp add: candidates_def)
  then have "d \<noteq> 0" using assms by auto
  then show "\<exists>m. candidate_metrics g c = Inr m"
    by (simp add: candidate_metrics_total)
qed

subsection \<open>The invariant of the search\<close>

lemma search_inv_init: "search_inv g [] \<lparr>best_config = None, best_score = 0\<rparr>"
  by (simp add: search_inv_def)

lemma loop_body_cases:
  assumes "loop_body g s c = Inr s'"
  obtains m where "candidate_metrics g c = Inr m" "acceptable g m" "best_score s < score_of m"
      "s' = \<lparr>best_config = Some (make_config c m (score_of m)), best_score = score_of m\<rparr>"
  | m where "candidate_metrics g c = Inr m" "s' = s" "acceptable g m \<longrightarrow> score_of m \<le> best_score s"
  using assms
  by (auto simp add: loop_body_def acceptable_def Let_def split: sum.splits if_splits)

lemma search_inv_step:
  assumes body: "loop_body g s c = Inr s'" and inv: "search_inv g pre s"
  shows "search_inv g (pre @ [c]) s'"
  using body
proof (cases rule: loop_body_cases)
  case (1 m)
  have old: "\<And>j m'. j < length pre \<Longrightarrow> candidate_metrics g (pre ! j) = Inr m' \<Longrightarrow>
      acceptable g m' \<Longrightarrow> score_of m' < score_of m"
    using inv 1(3) unfolding search_inv_def by fastforce
  show ?thesis
    unfolding search_inv_def
  proof (intro conjI allI impI)
    fix j m'
    assume "j < length (pre @ [c])"
      and "candidate_metrics g ((pre @ [c]) ! j) = Inr m' \<and> acceptable g m'"
    then show "score_of m' \<le> best_score s'"
      using old [of j m'] 1 by (cases "j < length pre") (auto simp add: nth_append less_Suc_eq)
  next
    assume "best_config s' = None"
    then show "best_score s' = 0" using 1 by simp
  next
    fix b
    assume "best_config s' = Some b"
    then have b: "b = make_config c m (score_of m)" using 1 by simp
    have "length pre < length (pre @ [c]) \<and> candidate_metrics g ((pre @ [c]) ! length pre) = Inr m \<and>
        b = make_config ((pre @ [c]) ! length pre) m (score_of m) \<and> acceptable g m \<and>
        score_of m = best_score s' \<and>
        (\<forall>j < length pre. \<forall>m'. candidate_metrics g ((pre @ [c]) ! j) = Inr m' \<and> acceptable g m' \<longrightarrow>
            score_of m' < best_score s')"
      using 1 b old by (auto simp add: nth_append)
    then show "\<exists>i < length (pre @ [c]). \<exists>m. candidate_metrics g ((pre @ [c]) ! i) = Inr m \<and>
            b = make_config ((pre @ [c]) ! i) m (score_of m) \<and> acceptable g m \<and>
            score_of m = best_score s' \<and>
            (\<forall>j < i. \<forall>m'. candidate_metrics g ((pre @ [c]) ! j) = Inr m' \<and> acceptable g m' \<longrightarrow>
                score_of m' < best_score s')"
      by blast
  qed
next
  case (2 m)
  show ?thesis
    unfolding search_inv_def
  proof (intro conjI allI impI)
    fix j m'
    assume "j < length (pre @ [c])"
      and "candidate_metrics g ((pre @ [c]) ! j) = Inr m' \<and> acceptable g m'"
    then show "score_of m' \<le> best_score s'"
      using inv 2 unfolding search_inv_def
      by (cases "j < length pre") (auto simp add: nth_append less_Suc_eq)
  next
    assume "best_config s' = None"
    then show "best_score s' = 0" using inv 2 by (simp add: search_inv_def)
  next
    fix b
    assume "best_config s' = Some b"
    then have "best_config s = Some b" using 2 by simp
    then obtain i m0 where i: "i < length pre" "candidate_metrics g (pre ! i) = Inr m0"
        "b = make_config (pre ! i) m0 (score_of m0)" "acceptable g m0"
        "score_of m0 = best_score s"
        "\<forall>j < i. \<forall>m'. candidate_metrics g (pre ! j) = Inr m' \<and> acceptable g m' \<longrightarrow>
            score_of m' < best_score s"
      using inv unfolding search_inv_def by blast
    have "i < length (pre @ [c]) \<and> candidate_metrics g ((pre @ [c]) ! i) = Inr m0 \<and>
        b = make_config ((pre @ [c]) ! i) m0 (score_of m0) \<and> acceptable g m0 \<and>
        score_of m0 = best_score s' \<and>
        (\<forall>j < i. \<forall>m'. candidate_metrics g ((pre @ [c]) ! j) = Inr m' \<and> acceptable g m' \<longrightarrow>
            score_of m' < best_score s')"
      using i 2 by (auto simp add: nth_append)
    then show "\<exists>i < length (pre @ [c]). \<exists>m. candidate_metrics g ((pre @ [c]) ! i) = Inr m \<and>
            b = make_config ((pre @ [c]) ! i) m (score_of m) \<and> acceptable g m \<and>
            score_of m = best_score s' \<and>
            (\<forall>j < i. \<forall>m'. candidate_metrics g ((pre @ [c]) ! j) = Inr m' \<and> acceptable g m' \<longrightarrow>
                score_of m' < best_score s')"
      by blast
  qed
qed

lemma search_inv_run:
  "run_candidates g cs s = Inr s' \<Longrightarrow> search_inv g pre s \<Longrightarrow> search_inv g (pre @ cs) s'"
proof (induction cs arbitrary: pre s)
  case Nil
  then show ?case by simp
next
  case (Cons c cs)
  from Cons.prems(1) obtain s1 where s1: "loop_body g s c = Inr s1"
      and rest: "run_candidates g cs s1 = Inr s'"
    by (auto split: sum.splits)
  have "search_inv g (pre @ [c]) s1"
    using s1 Cons.prems(2) by (rule search_inv_step)
  with rest have "search_inv g ((pre @ [c]) @ cs) s'" by (rule Cons.IH)
  then show ?case by simp
qed

lemma run_candidates_total:
  "\<forall>c \<in> set cs. \<exists>m. candidate_metrics g c = Inr m \<Longrightarrow> \<exists>s'. run_candidates g cs s = Inr s'"
proof (induction cs arbitrary: s)
  case Nil
  then show ?case by simp
next
  case (Cons c cs)
  then obtain m where m: "candidate_metrics g c = Inr m" by auto
  have "\<exists>s1. loop_body g s c = Inr s1"
    by (simp add: loop_body_def Let_def m)
  then obtain s1 where s1: "loop_body g s c = Inr s1" by blast
  obtain s' where "run_candidates g cs s1 = Inr s'"
    using Cons.IH [of s1] Cons.prems by auto
  with s1 show ?case by simp
qed

lemma run_candidates_unchanged:
  "\<forall>c \<in> set cs. \<exists>m. candidate_metrics g c = Inr m \<and>
       \<not> (acceptable g m \<and> best_score s < score_of m) \<Longrightarrow>
   run_candidates g cs s = Inr s"
proof (induction cs)
  case Nil
  then show ?case by simp
next
  case (Cons c cs)
  then obtain m where m: "candidate_metrics g c = Inr m"
      "\<not> (acceptable g m \<and> best_score s < score_of m)"
    by auto
  then have "loop_body g s c = Inr s"
    by (auto simp add: loop_body_def Let_def acceptable_def)
  then show ?case using Cons by simp
qed

lemma run_optimization_found:
  assumes "run_optimization g = Inr (Found b)"
  shows "\<exists>s. run_candidates g (candidates g) \<lparr>best_config = None, best_score = 0\<rparr> = Inr s \<and>
     best_config s = Some b"
  using assms
  by (auto simp add: run_optimization_def split: if_splits sum.splits option.splits)

lemma run_optimization_finds:
  assumes sel: "optimize_params g \<noteq> []"
    and total: "\<forall>c \<in> set (candidates g). \<exists>m. candidate_metrics g c = Inr m"
    and c: "c \<in> set (candidates g)" "candidate_metrics g c = Inr m" "acceptable g m"
      "0 < score_of m"
  shows "\<exists>b. run_optimization g = Inr (Found b)"
proof -
  obtain s where run: "run_candidates g (candidates g) \<lparr>best_config = None, best_score = 0\<rparr> = Inr s"
    using run_candidates_total [OF total] by blast
  have inv: "search_inv g (candidates g) s"
    using search_inv_run [OF run search_inv_init] by simp
  obtain j where "j < length (candidates g)" "candidates g ! j = c"
    using c(1) by (auto simp add: in_set_conv_nth)
  then have "score_of m \<le> best_score s"
    using inv c(2,3) unfolding search_inv_def by blast
  then have "best_config s \<noteq> None"
    using inv c(4) unfolding search_inv_def by auto
  then show ?thesis using sel run by (auto simp add: run_optimization_def)
qed

subsection \<open>The concrete searches\<close>

text \<open>
  The candidate with the default values in the window with all four axes selected, the
  four candidates of the heavy vehicle, the candidates of the window with a maximal
  weight of 900 grams, and the evaluation of the default window: their metrics between
  rational bounds.
\<close>

lemma all_axes_candidate:
  "\<exists>m. candidate_metrics all_axes_gui (10, 1000, 5000, 4) = Inr m \<and>
       acceptable all_axes_gui m \<and> 0 < score_of m"
proof -
  obtain t where t: "calculate_propeller_thrust calculator 10 4.5 11100 0.8 = Inr t"
      and lo: "5284 \<le> t" and hi: "t \<le> 6420"
    using default_thrust by blast
  define p where "p = (t / 101.97) powr 1.5 / (0.85 * 10)"
  have "(7::real) ^ 2 \<le> t / 101.97" "t / 101.97 \<le> (8::real) ^ 2"
    using lo hi by simp_all
  then have "(7::real) ^ 3 / 8.5 \<le> p" "p \<le> (8::real) ^ 3 / 8.5"
    unfolding p_def using power_bounds [of 7 t 8] by simp_all
  then have p: "40 \<le> p" "p \<le> 61" by simp_all
  have rpm: "calculate_motor_rpm calculator (battery_voltage all_axes_gui) 1000 0 = 11100"
    by (simp add: calculate_motor_rpm_def all_axes_gui_def default_gui_def)
  have t': "calculate_propeller_thrust calculator 10 (prop_pitch all_axes_gui)
      (calculate_motor_rpm calculator (battery_voltage all_axes_gui) 1000 0) 0.8 = Inr t"
    using t by (simp add: rpm) (simp add: all_axes_gui_def default_gui_def)
  have t0: "0 \<le> t" using lo by simp
  have v: "battery_voltage all_axes_gui \<noteq> 0"
    by (simp add: all_axes_gui_def default_gui_def)
  have m: "candidate_metrics all_axes_gui (10, 1000, 5000, 4) =
      Inr \<lparr>m_twr = t * 4 / 880, m_flight_time = (5 / (p * 4 / 11.1)) * 60,
           m_total_weight = 880, m_power = p * 4\<rparr>"
    unfolding candidate_metrics_closed [OF t' t0 v, of 5000 4, folded p_def]
    using p(1) by (simp add: all_axes_gui_def default_gui_def)
  have ft: "(5 / (p * 4 / 11.1)) * 60 = 832.5 / p" using p(1) by (simp add: field_simps)
  have "832.5 / 61 \<le> 832.5 / p" using p by (intro divide_left_mono) auto
  then have ft_lo: "13 \<le> 832.5 / p" by simp
  have twr_lo: "24 \<le> t * 4 / 880" using lo by simp
  let ?m = "\<lparr>m_twr = t * 4 / 880, m_flight_time = 832.5 / p,
           m_total_weight = 880, m_power = p * 4\<rparr>"
  have "acceptable all_axes_gui ?m"
    using ft_lo twr_lo by (simp add: acceptable_def all_axes_gui_def default_gui_def)
  moreover have "0 < score_of ?m"
    using ft_lo twr_lo p by (simp add: score_of_def)
  ultimately show ?thesis using m ft by simp
qed

lemma heavy_candidate:
  assumes n: "3 \<le> n" "n \<le> 8"
  shows "\<exists>m. candidate_metrics heavy_gui (10, 1500, 500, n) = Inr m \<and> score_of m \<le> 0 \<and>
      (n = 8 \<longrightarrow> acceptable heavy_gui m)"
proof -
  obtain t where t: "calculate_propeller_thrust calculator 10 5 6000 0.8 = Inr t"
      and lo: "1403 \<le> t" and hi: "t \<le> 1704"
    using heavy_thrust by blast
  define p where "p = (t / 101.97) powr 1.5 / (0.85 * 10)"
  have "(3.7::real) ^ 2 \<le> t / 101.97" "t / 101.97 \<le> (4.1::real) ^ 2"
    using lo hi by (simp_all add: power2_eq_square)
  then have "(3.7::real) ^ 3 / 8.5 \<le> p" "p \<le> (4.1::real) ^ 3 / 8.5"
    unfolding p_def using power_bounds [of "3.7" t "4.1"] by simp_all
  then have p: "5.9 \<le> p" "p \<le> 8.2" by (simp_all add: power3_eq_cube)
  define k where "k = real_of_int n"
  have k: "3 \<le> k" "k \<le> 8" using n by (simp_all add: k_def)
  have rpm: "calculate_motor_rpm calculator (battery_voltage heavy_gui) 1500 0 = 6000"
    by (simp add: calculate_motor_rpm_def heavy_gui_def)
  have t': "calculate_propeller_thrust calculator 10 (prop_pitch heavy_gui)
      (calculate_motor_rpm calculator (battery_voltage heavy_gui) 1500 0) 0.8 = Inr t"
    using t by (simp add: rpm) (simp add: heavy_gui_def)
  have t0: "0 \<le> t" using lo by simp
  have v: "battery_voltage heavy_gui \<noteq> 0" by (simp add: heavy_gui_def)
  have pk: "5.9 * 3 \<le> p * k" using p(1) k(1) by (intro mult_mono) auto
  have pk_hi: "p * k \<le> 8.2 * 8" using p k by (intro mult_mono) auto
  have w: "0 < 10 * k + 8920" using k by simp
  have m: "candidate_metrics heavy_gui (10, 1500, 500, n) =
      Inr \<lparr>m_twr = t * k / (10 * k + 8920), m_flight_time = 120 / (p * k),
           m_total_weight = 10 * k + 8920, m_power = p * k\<rparr>"
    unfolding candidate_metrics_closed [OF t' t0 v, of 500 n, folded p_def k_def]
    using pk w by (simp add: heavy_gui_def field_simps)
  let ?m = "\<lparr>m_twr = t * k / (10 * k + 8920), m_flight_time = 120 / (p * k),
           m_total_weight = 10 * k + 8920, m_power = p * k\<rparr>"
  define a where "a = t * k / (10 * k + 8920)"
  define b where "b = 120 / (p * k)"
  define q where "q = p * k"
  have "t * k \<le> 1704 * 8" using hi k t0 by (intro mult_mono) auto
  then have "t * k / (10 * k + 8920) \<le> 1704 * 8 / 8920"
    using k t0 by (intro frac_le) auto
  then have twr_hi: "a \<le> 1.53" by (simp add: a_def)
  have "120 / (p * k) \<le> 120 / (5.9 * 3)" using pk by (intro divide_left_mono) auto
  then have ft_hi: "b \<le> 6.8" by (simp add: b_def)
  have q_lo: "17.7 \<le> q" using pk by (simp add: q_def)
  have "score_of \<lparr>m_twr = a, m_flight_time = b, m_total_weight = 10 * k + 8920,
      m_power = q\<rparr> \<le> 0"
    using twr_hi ft_hi q_lo k by (simp add: score_of_def add_divide_distrib)
  then have score: "score_of ?m \<le> 0" by (simp only: a_def b_def q_def)
  have acc: "acceptable heavy_gui ?m" if "n = 8"
  proof -
    have k8: "k = 8" using that by (simp add: k_def)
    have "120 / (8.2 * 8) \<le> 120 / (p * k)" using pk pk_hi by (intro divide_left_mono) auto
    then have "1 \<le> 120 / (p * k)" by simp
    moreover have "1 \<le> t * 8 / 9000" using lo by simp
    ultimately show ?thesis by (simp add: acceptable_def heavy_gui_def k8)
  qed
  show ?thesis using m score acc by simp
qed

lemma tight_metrics:
  "\<exists>t p u. 5284 \<le> t \<and> 40 \<le> p \<and> p \<le> 61 \<and> 1 / 61 \<le> u \<and> u \<le> 1 / 40 \<and>
     (\<forall>n. 0 < n \<longrightarrow> candidate_metrics tight_gui (10, 1000, 5000, n) =
        Inr \<lparr>m_twr = t * real_of_int n / (50 * real_of_int n + 680),
             m_flight_time = 3330 / real_of_int n * u,
             m_total_weight = 50 * real_of_int n + 680, m_power = p * real_of_int n\<rparr>)"
proof -
  obtain t where t: "calculate_propeller_thrust calculator 10 4.5 11100 0.8 = Inr t"
      and lo: "5284 \<le> t" and hi: "t \<le> 6420"
    using default_thrust by blast
  define p where "p = (t / 101.97) powr 1.5 / (0.85 * 10)"
  have "(7::real) ^ 2 \<le> t / 101.97" "t / 101.97 \<le> (8::real) ^ 2"
    using lo hi by simp_all
  then have "(7::real) ^ 3 / 8.5 \<le> p" "p \<le> (8::real) ^ 3 / 8.5"
    unfolding p_def using power_bounds [of 7 t 8] by simp_all
  then have p: "40 \<le> p" "p \<le> 61" by simp_all
  have u: "1 / 61 \<le> 1 / p" "1 / p \<le> 1 / 40"
    using p by (simp_all add: field_simps)
  have rpm: "calculate_motor_rpm calculator (battery_voltage tight_gui) 1000 0 = 11100"
    by (simp add: calculate_motor_rpm_def tight_gui_def default_gui_def)
  have t': "calculate_propeller_thrust calculator 10 (prop_pitch tight_gui)
      (calculate_motor_rpm calculator (battery_voltage tight_gui) 1000 0) 0.8 = Inr t"
    using t by (simp add: rpm) (simp add: tight_gui_def default_gui_def)
  have t0: "0 \<le> t" using lo by simp
  have v: "battery_voltage tight_gui \<noteq> 0"
    by (simp add: tight_gui_def default_gui_def)
  have "candidate_metrics tight_gui (10, 1000, 5000, n) =
      Inr \<lparr>m_twr = t * real_of_int n / (50 * real_of_int n + 680),
           m_flight_time = 3330 / real_of_int n * (1 / p),
           m_total_weight = 50 * real_of_int n + 680, m_power = p * real_of_int n\<rparr>"
    if "0 < n" for n
  proof -
    define k where "k = real_of_int n"
    have k: "0 < k" using that by (simp add: k_def)
    have pk: "\<not> p * k \<le> 0" using p(1) k by (simp add: mult_le_0_iff)
    have w: "motor_weight tight_gui * k + battery_weight tight_gui + frame_weight tight_gui +
        flight_controller_weight tight_gui + camera_weight tight_gui +
        additional_payload tight_gui + wiring_weight tight_gui = 50 * k + 680"
      by (simp add: tight_gui_def default_gui_def)
    have wpos: "0 < 50 * k + 680" using k by simp
    have ft: "((5000 / 1000) / (p * k / battery_voltage tight_gui)) * 60 = 3330 / k * (1 / p)"
      using k p(1) by (simp add: tight_gui_def default_gui_def field_simps)
    show ?thesis
      unfolding candidate_metrics_closed [OF t' t0 v, of 5000 n, folded p_def k_def]
      by (simp only: w wpos pk ft if_True if_False) (simp only: k_def)
  qed
  then show ?thesis using lo p u by blast
qed

lemma default_template_feasible: "spec_template_feasible default_gui"
proof -
  obtain t where t: "calculate_propeller_thrust calculator 10 4.5 11100 0.8 = Inr t"
      and lo: "5284 \<le> t" and hi: "t \<le> 6420"
    using default_thrust by blast
  define p where "p = (t / 101.97) powr 1.5 / (0.85 * 10)"
  have "(7::real) ^ 2 \<le> t / 101.97" "t / 101.97 \<le> (8::real) ^ 2"
    using lo hi by simp_all
  then have "(7::real) ^ 3 / 8.5 \<le> p" "p \<le> (8::real) ^ 3 / 8.5"
    unfolding p_def using power_bounds [of 7 t 8] by simp_all
  then have p: "40 \<le> p" "p \<le> 61" by simp_all
  have t': "calculate_propeller_thrust calculator (prop_diameter default_gui)
      (prop_pitch default_gui)
      (calculate_motor_rpm calculator (battery_voltage default_gui) (motor_kv default_gui) 0)
      (prop_efficiency default_gui / 100) = Inr t"
    using t by (simp add: calculate_motor_rpm_def default_gui_def)
  have t0: "0 \<le> t" using lo by simp
  obtain r where r: "update_calculations default_gui = Inr r"
      and w: "total_weight r = 980"
      and pw: "total_power r = p * 4"
      and ft: "flight_time r =
        (if total_power r \<le> 0 then 0
         else ((battery_capacity default_gui / 1000) /
           (total_power r / battery_voltage default_gui)) * 60)"
    using update_calculations_closed [OF t' t0]
    by (auto simp add: default_gui_def p_def)
  have "flight_time r = 832.5 / p"
    using p(1) unfolding ft pw by (simp add: default_gui_def field_simps)
  moreover have "832.5 / 61 \<le> 832.5 / p" using p by (intro divide_left_mono) auto
  ultimately have "10 \<le> flight_time r" by simp
  then show ?thesis
    using r w by (simp add: spec_template_feasible_def default_gui_def)
qed

subsection \<open>The grid search\<close>

text \<open>
  Claim C1. The claim says that the metrics of the loop body are those of
  \<open>update_calculations\<close> on the template with the candidate substituted. The code
  does not do that: the loop body leaves the speed controllers out of the total weight
  and calls the thrust and the power with their default efficiencies. For the default
  window with the number of motors selected, the candidate with the default values is
  in the grid; the loop body weighs it 880 grams, \<open>update_calculations\<close> weighs the
  same configuration 980 grams.
\<close>

theorem optimizer_weight_differs:
  "(10, 1000, 5000, 4) \<in> set (candidates motors_axis_gui) \<and>
   map_sum id m_total_weight (candidate_metrics motors_axis_gui (10, 1000, 5000, 4)) = Inr 880 \<and>
   map_sum id total_weight
     (update_calculations (with_candidate motors_axis_gui (10, 1000, 5000, 4))) = Inr 980"
proof -
  have mem: "(10, 1000, 5000, 4) \<in> set (candidates motors_axis_gui)"
    by (simp add: candidates_def prop_diameters_def motor_kvs_def battery_caps_def
        motor_counts_def selected motors_axis_gui_def default_gui_def)
  obtain m where m: "candidate_metrics motors_axis_gui (10, 1000, 5000, 4) = Inr m"
    using candidate_metrics_total [of motors_axis_gui 1000 10 5000 4] by auto
  then have mw: "m_total_weight m = 880"
    by (auto simp add: candidate_metrics_def Let_def motors_axis_gui_def default_gui_def
        split: sum.splits)
  let ?g = "with_candidate motors_axis_gui (10, 1000, 5000, 4)"
  obtain r where r: "update_calculations ?g = Inr r"
    using update_calculations_result [of ?g]
    by (auto simp add: with_candidate_def motors_axis_gui_def default_gui_def)
  then have rw: "total_weight r = 980"
    by (auto simp add: update_calculations_def Let_def with_candidate_def motors_axis_gui_def
        default_gui_def split: sum.splits)
  show ?thesis using mem m mw r rw by simp
qed

text \<open>
  Claim C2. The claim says that the search is infeasible only when no candidate passes
  the constraints with a thrust-to-weight ratio of at least one. The code takes a
  candidate only when its score exceeds the best score so far, which starts at zero:
  for the heavy vehicle the candidate with eight motors passes both constraints with a
  ratio of at least one, every candidate has a score of zero or less, and the search
  ends infeasible.
\<close>

theorem feasible_candidate_not_found:
  "run_optimization heavy_gui = Inr Infeasible \<and>
   (10, 1500, 500, 8) \<in> set (candidates heavy_gui) \<and>
   (\<exists>m. candidate_metrics heavy_gui (10, 1500, 500, 8) = Inr m \<and>
        m_total_weight m \<le> max_weight heavy_gui \<and>
        min_flight_time heavy_gui \<le> m_flight_time m \<and> 1 \<le> m_twr m)"
proof -
  have cs: "candidates heavy_gui =
      [(10, 1500, 500, 3), (10, 1500, 500, 4), (10, 1500, 500, 6), (10, 1500, 500, 8)]"
    by (simp add: candidates_def prop_diameters_def motor_kvs_def battery_caps_def
        motor_counts_def selected heavy_gui_def)
  have sel: "optimize_params heavy_gui \<noteq> []"
    by (simp add: nothing_selected heavy_gui_def)
  have "\<forall>c \<in> set (candidates heavy_gui). \<exists>m. candidate_metrics heavy_gui c = Inr m \<and>
      \<not> (acceptable heavy_gui m \<and>
         best_score \<lparr>best_config = None, best_score = 0\<rparr> < score_of m)"
    unfolding cs
    using heavy_candidate [of 3] heavy_candidate [of 4] heavy_candidate [of 6]
      heavy_candidate [of 8]
    by auto
  then have "run_candidates heavy_gui (candidates heavy_gui)
      \<lparr>best_config = None, best_score = 0\<rparr> = Inr \<lparr>best_config = None, best_score = 0\<rparr>"
    by (rule run_candidates_unchanged)
  then have inf: "run_optimization heavy_gui = Inr Infeasible"
    using sel by (simp add: run_optimization_def)
  obtain m where "candidate_metrics heavy_gui (10, 1500, 500, 8) = Inr m"
      "acceptable heavy_gui m"
    using heavy_candidate [of 8] by auto
  then show ?thesis using inf cs by (auto simp add: acceptable_def)
qed

text \<open>
  Claim C3. The claim says that a configuration returned by the search satisfies both
  constraints, has a thrust-to-weight ratio of at least one and the score of its
  metrics, and is the first with the maximal score. The code does not do that for the
  metrics of the configuration as \<open>update_calculations\<close> computes them: the loop body
  checks and stores its own total weight, without the speed controllers. For the
  default window with the number of motors selected and a maximal weight of 900 grams
  the search returns the candidate with four motors, with a stored weight of 880 grams;
  the total weight of that configuration is 980 grams, above the maximal weight.
\<close>

theorem found_exceeds_max_weight:
  "\<exists>b. run_optimization tight_gui = Inr (Found b) \<and>
       (c_prop_diameter b, c_motor_kv b, c_battery_capacity b, c_motor_count b) =
         (10, 1000, 5000, 4) \<and>
       c_total_weight b = 880 \<and> c_total_weight b \<le> max_weight tight_gui \<and>
       map_sum id total_weight
         (update_calculations (with_candidate tight_gui (10, 1000, 5000, 4))) = Inr 980 \<and>
       max_weight tight_gui < 980"
proof -
  obtain t p u where lo: "5284 \<le> t" and p: "40 \<le> p" "p \<le> 61"
      and u: "1 / 61 \<le> u" "u \<le> 1 / 40"
      and m: "\<And>n. 0 < n \<Longrightarrow> candidate_metrics tight_gui (10, 1000, 5000, n) =
        Inr \<lparr>m_twr = t * real_of_int n / (50 * real_of_int n + 680),
             m_flight_time = 3330 / real_of_int n * u,
             m_total_weight = 50 * real_of_int n + 680, m_power = p * real_of_int n\<rparr>"
    using tight_metrics by blast
  let ?m3 = "\<lparr>m_twr = t * 3 / 830, m_flight_time = 1110 * u,
      m_total_weight = 830, m_power = p * 3\<rparr>"
  let ?m4 = "\<lparr>m_twr = t * 4 / 880, m_flight_time = 832.5 * u,
      m_total_weight = 880, m_power = p * 4\<rparr>"
  let ?s0 = "\<lparr>best_config = None, best_score = 0\<rparr>"
  let ?s1 = "\<lparr>best_config = Some (make_config (10, 1000, 5000, 3) ?m3 (score_of ?m3)),
      best_score = score_of ?m3\<rparr>"
  let ?s2 = "\<lparr>best_config = Some (make_config (10, 1000, 5000, 4) ?m4 (score_of ?m4)),
      best_score = score_of ?m4\<rparr>"
  have m3: "candidate_metrics tight_gui (10, 1000, 5000, 3) = Inr ?m3"
    using m [of 3] by simp
  have m4: "candidate_metrics tight_gui (10, 1000, 5000, 4) = Inr ?m4"
    using m [of 4] by simp
  have m6: "\<exists>m6. candidate_metrics tight_gui (10, 1000, 5000, 6) = Inr m6 \<and>
      m_total_weight m6 = 980"
    using m [of 6] by simp
  have m8: "\<exists>m8. candidate_metrics tight_gui (10, 1000, 5000, 8) = Inr m8 \<and>
      m_total_weight m8 = 1080"
    using m [of 8] by simp
  have mw: "max_weight tight_gui = 900" "min_flight_time tight_gui = 10"
    by (simp_all add: tight_gui_def default_gui_def)
  have sc3: "score_of ?m3 = t * 3 / 830 * 30 + 1110 * u * 2 - 8.3 - p * 0.3"
    by (simp add: score_of_def)
  have sc4: "score_of ?m4 = t * 4 / 880 * 30 + 832.5 * u * 2 - 8.8 - p * 0.4"
    by (simp add: score_of_def)
  have pos3: "0 < score_of ?m3" unfolding sc3 using lo p u by simp
  have gt: "score_of ?m3 < score_of ?m4" unfolding sc3 sc4 using lo p u by simp
  have b3: "loop_body tight_gui ?s0 (10, 1000, 5000, 3) = Inr ?s1"
    using pos3 lo u by (simp add: loop_body_def m3 mw Let_def)
  have b4: "loop_body tight_gui ?s1 (10, 1000, 5000, 4) = Inr ?s2"
    using gt lo u by (simp add: loop_body_def m4 mw Let_def)
  have b6: "loop_body tight_gui ?s2 (10, 1000, 5000, 6) = Inr ?s2"
    using m6 by (auto simp add: loop_body_def mw)
  have b8: "loop_body tight_gui ?s2 (10, 1000, 5000, 8) = Inr ?s2"
    using m8 by (auto simp add: loop_body_def mw)
  have cs: "candidates tight_gui =
      [(10, 1000, 5000, 3), (10, 1000, 5000, 4), (10, 1000, 5000, 6), (10, 1000, 5000, 8)]"
    by (simp add: candidates_def prop_diameters_def motor_kvs_def battery_caps_def
        motor_counts_def selected tight_gui_def default_gui_def)
  have "run_candidates tight_gui (candidates tight_gui) ?s0 = Inr ?s2"
    unfolding cs by (simp only: run_candidates.simps b3 b4 b6 b8 sum.case)
  moreover have "optimize_params tight_gui \<noteq> []"
    by (simp add: nothing_selected tight_gui_def)
  ultimately have found: "run_optimization tight_gui =
      Inr (Found (make_config (10, 1000, 5000, 4) ?m4 (score_of ?m4)))"
    by (simp add: run_optimization_def)
  let ?g = "with_candidate tight_gui (10, 1000, 5000, 4)"
  obtain r where r: "update_calculations ?g = Inr r"
    using update_calculations_result [of ?g]
    by (auto simp add: with_candidate_def tight_gui_def default_gui_def)
  then have rw: "total_weight r = 980"
    by (auto simp add: update_calculations_def Let_def with_candidate_def tight_gui_def
        default_gui_def split: sum.splits)
  show ?thesis
    unfolding found using r rw by (simp add: make_config_def mw)
qed

text \<open>
  What does hold of a returned configuration is relative to the metrics of the loop
  body. It is the configuration of some candidate of the grid, built from those
  metrics: they pass both constraint checks, the ratio among them is at least one, and
  the score is their weighted sum. No candidate whose metrics pass the same checks has
  a higher score, and every such candidate that the loops visit earlier has a strictly
  lower score.
\<close>

lemma found_is_best:
  assumes "run_optimization g = Inr (Found b)"
  shows "\<exists>i < length (candidates g). \<exists>m.
      candidate_metrics g (candidates g ! i) = Inr m \<and>
      b = make_config (candidates g ! i) m (score_of m) \<and>
      (c_prop_diameter b, c_motor_kv b, c_battery_capacity b, c_motor_count b) =
        candidates g ! i \<and>
      c_twr b = m_twr m \<and> c_flight_time b = m_flight_time m \<and>
      c_total_weight b = m_total_weight m \<and> c_power b = m_power m \<and>
      c_total_weight b \<le> max_weight g \<and> min_flight_time g \<le> c_flight_time b \<and>
      1 \<le> c_twr b \<and>
      c_score b = c_twr b * 30 + c_flight_time b * 2 - c_total_weight b * 0.01 - c_power b * 0.1 \<and>
      (\<forall>j < length (candidates g). \<forall>m'.
          candidate_metrics g (candidates g ! j) = Inr m' \<and>
          m_total_weight m' \<le> max_weight g \<and> min_flight_time g \<le> m_flight_time m' \<and>
          1 \<le> m_twr m' \<longrightarrow>
          score_of m' \<le> c_score b \<and> (j < i \<longrightarrow> score_of m' < c_score b))"
proof -
  obtain s where run: "run_candidates g (candidates g) \<lparr>best_config = None, best_score = 0\<rparr> = Inr s"
      and best: "best_config s = Some b"
    using run_optimization_found [OF assms] by blast
  have inv: "search_inv g (candidates g) s"
    using search_inv_run [OF run search_inv_init] by simp
  then obtain i m where i: "i < length (candidates g)"
      and m: "candidate_metrics g (candidates g ! i) = Inr m"
      and b: "b = make_config (candidates g ! i) m (score_of m)"
      and acc: "acceptable g m" and sc: "score_of m = best_score s"
      and earlier: "\<forall>j < i. \<forall>m'. candidate_metrics g (candidates g ! j) = Inr m' \<and>
          acceptable g m' \<longrightarrow> score_of m' < best_score s"
    using best unfolding search_inv_def by blast
  have all: "\<forall>j < length (candidates g). \<forall>m'.
      candidate_metrics g (candidates g ! j) = Inr m' \<and> acceptable g m' \<longrightarrow>
      score_of m' \<le> best_score s"
    using inv unfolding search_inv_def by blast
  have fields: "c_twr b = m_twr m" "c_flight_time b = m_flight_time m"
      "c_total_weight b = m_total_weight m" "c_power b = m_power m" "c_score b = score_of m"
    unfolding b make_config_def by (simp_all split: prod.splits)
  have "c_total_weight b \<le> max_weight g \<and> min_flight_time g \<le> c_flight_time b \<and> 1 \<le> c_twr b"
    using acc by (simp add: fields acceptable_def)
  moreover have "c_score b =
      c_twr b * 30 + c_flight_time b * 2 - c_total_weight b * 0.01 - c_power b * 0.1"
    by (simp add: fields score_of_def)
  moreover have "\<forall>j < length (candidates g). \<forall>m'.
          candidate_metrics g (candidates g ! j) = Inr m' \<and>
          m_total_weight m' \<le> max_weight g \<and> min_flight_time g \<le> m_flight_time m' \<and>
          1 \<le> m_twr m' \<longrightarrow>
          score_of m' \<le> c_score b \<and> (j < i \<longrightarrow> score_of m' < c_score b)"
    using all earlier by (simp add: fields sc acceptable_def)
  moreover have "(c_prop_diameter b, c_motor_kv b, c_battery_capacity b, c_motor_count b) =
      candidates g ! i"
    unfolding b make_config_def by (simp split: prod.splits)
  ultimately show ?thesis using i m b fields(1-4) by blast
qed

lemma found_is_best_instance:
  "\<exists>b. run_optimization all_axes_gui = Inr (Found b) \<and>
       c_total_weight b \<le> 2000 \<and> 10 \<le> c_flight_time b \<and> 1 \<le> c_twr b \<and>
       c_score b = c_twr b * 30 + c_flight_time b * 2 - c_total_weight b * 0.01 - c_power b * 0.1"
proof -
  have sel: "optimize_params all_axes_gui \<noteq> []"
    by (simp add: nothing_selected all_axes_gui_def)
  have "prop_diameters all_axes_gui = [8, 10, 12, 14]"
    by (simp add: prop_diameters_def selected all_axes_gui_def)
  then have total: "\<forall>c \<in> set (candidates all_axes_gui). \<exists>m. candidate_metrics all_axes_gui c = Inr m"
    by (intro candidates_total) simp
  have mem: "(10, 1000, 5000, 4) \<in> set (candidates all_axes_gui)"
    by (simp add: candidates_def prop_diameters_def motor_kvs_def battery_caps_def
        motor_counts_def selected all_axes_gui_def)
  obtain m where "candidate_metrics all_axes_gui (10, 1000, 5000, 4) = Inr m"
      "acceptable all_axes_gui m" "0 < score_of m"
    using all_axes_candidate by blast
  with sel total mem obtain b where b: "run_optimization all_axes_gui = Inr (Found b)"
    using run_optimization_finds by blast
  have "c_total_weight b \<le> max_weight all_axes_gui \<and>
      min_flight_time all_axes_gui \<le> c_flight_time b \<and> 1 \<le> c_twr b \<and>
      c_score b = c_twr b * 30 + c_flight_time b * 2 - c_total_weight b * 0.01 - c_power b * 0.1"
    using found_is_best [OF b] by blast
  then show ?thesis using b by (auto simp add: all_axes_gui_def default_gui_def)
qed

text \<open>
  Claim C4, as amended. With no parameter selected for optimisation
  \<open>run_optimization\<close> evaluates no candidate: for every template and every
  constraints it returns the outcome \<open>No_parameters_selected\<close>, which carries no
  configuration and no score.
\<close>

theorem no_selection_no_score:
  "\<not> opt_prop_diameter g \<and> \<not> opt_motor_kv g \<and> \<not> opt_battery_capacity g \<and>
   \<not> opt_num_motors g \<longrightarrow>
     run_optimization g = Inr No_parameters_selected \<and>
     outcome_score (run_optimization g) = None"
  by (simp add: run_optimization_def nothing_selected outcome_score_def)

theorem no_selection_no_score_witness:
  "(\<not> opt_prop_diameter default_gui \<and> \<not> opt_motor_kv default_gui \<and>
    \<not> opt_battery_capacity default_gui \<and> \<not> opt_num_motors default_gui) \<and>
   run_optimization default_gui = Inr No_parameters_selected \<and>
   outcome_score (run_optimization default_gui) = None"
proof -
  have h: "\<not> opt_prop_diameter default_gui \<and> \<not> opt_motor_kv default_gui \<and>
    \<not> opt_battery_capacity default_gui \<and> \<not> opt_num_motors default_gui"
    by (simp add: default_gui_def)
  with no_selection_no_score [of default_gui] show ?thesis by blast
qed

text \<open>
  Claim C4 as it is written asks for the score of the template's own evaluation. The
  default window satisfies the default constraints and its evaluation has a score, but
  with nothing selected the outcome has none.
\<close>

theorem default_template_has_no_score:
  "spec_template_feasible default_gui \<and>
   run_optimization default_gui = Inr No_parameters_selected \<and>
   outcome_score (run_optimization default_gui) \<noteq> spec_template_score default_gui"
proof -
  have none: "run_optimization default_gui = Inr No_parameters_selected"
    by (simp add: run_optimization_def nothing_selected default_gui_def)
  obtain r where "update_calculations default_gui = Inr r"
    using default_gui_result by blast
  then have "spec_template_score default_gui \<noteq> None"
    by (simp add: spec_template_score_def)
  then show ?thesis
    using default_template_feasible none by (auto simp add: outcome_score_def)
qed

end
